theory Spec2Isabelle
  imports Main
begin

section \<open>BlobReadStream\<close>

text \<open>
  The source handed to the constructor is an object of the environment with a \<open>size\<close>
  and a slicing function (\<open>slice\<close>, \<open>webkitSlice\<close> or \<open>mozSlice\<close>); \<open>bytes\<close> are its
  contents and \<open>size\<close> is their number. \<open>_emitReadChunk\<close> calls
  \<open>(this._source.slice || this._source.webkitSlice || this._source.mozSlice)(start, end)\<close>:
  the callee is the value of the \<open>||\<close> expression, so the function is called without a
  receiver. How that call answers depends on the source:
  \<^item> \<open>Native_blob\<close>: a \<open>Blob\<close> of the browser, which is what \<open>BinaryClient.prototype.send\<close>
    constructs and passes. Its slicing functions are methods that need the \<open>Blob\<close> as
    their receiver: called without it they throw a \<open>TypeError\<close>.
  \<^item> \<open>Receiver_free\<close>: an object of the application whose \<open>slice\<close> does not use its
    receiver; it answers the bytes between the two offsets.
\<close>

datatype 'b byte_source = Native_blob "'b list" | Receiver_free "'b list"

fun bytes :: "'b byte_source \<Rightarrow> 'b list" where
  "bytes (Native_blob xs) = xs"
| "bytes (Receiver_free xs) = xs"

text \<open>
  \<open>slice(start, end)\<close> on a byte sequence, for offsets that are not negative: both offsets
  are clamped to the size, and the answer is empty when the end is not after the start.
\<close>

definition blob_slice :: "'b list \<Rightarrow> nat \<Rightarrow> nat \<Rightarrow> 'b list" where
  "blob_slice xs a b =
     (let relativeStart = min a (length xs); relativeEnd = min b (length xs)
      in take (relativeEnd - relativeStart) (drop relativeStart xs))"

text \<open>The exception a callback of the producer can throw.\<close>

datatype blob_error = TypeError

fun slice_without_receiver :: "'b byte_source \<Rightarrow> nat \<Rightarrow> nat \<Rightarrow> blob_error + 'b list" where
  "slice_without_receiver (Native_blob xs) a b = Inl TypeError"
| "slice_without_receiver (Receiver_free xs) a b = Inr (blob_slice xs a b)"

text \<open>The events a \<open>BlobReadStream\<close> emits: \<open>emit("data", chunk)\<close> and \<open>emit("end")\<close>.\<close>

datatype 'b blob_event = Chunk "'b list" | Ended

text \<open>
  The fields of a \<open>BlobReadStream\<close> (\<open>blob_readable\<close> and \<open>blob_paused\<close> are its \<open>readable\<close>
  and \<open>paused\<close>), with the part of the environment it acts on:
  \<^item> \<open>timers\<close>: the callbacks \<open>_read\<close> has scheduled (by \<open>setTimeout\<close> or by
    \<open>util.setZeroTimeout\<close>) that have neither run nor been cleared, oldest first, each
    under the identifier it was given; every one of them calls \<open>_emitReadChunk\<close>;
  \<^item> \<open>nextTimer\<close>: the identifier the next scheduled callback gets;
  \<^item> \<open>produced\<close>: the events emitted so far, oldest first;
  \<^item> \<open>uncaught\<close>: the exceptions that left a callback, oldest first.
\<close>

record 'b blob_stream =
  source :: "'b byte_source"
  start :: nat
  readChunkSize :: nat
  readDelay :: nat
  blob_readable :: bool
  blob_paused :: bool
  timeoutId :: "nat option"
  timers :: "nat list"
  nextTimer :: nat
  produced :: "'b blob_event list"
  uncaught :: "blob_error list"

text \<open>
  \<open>BlobReadStream.prototype._read\<close>: schedules one call of \<open>_emitReadChunk\<close>; only
  \<open>setTimeout\<close> (taken when \<open>readDelay\<close> is not 0) gives back an identifier that is kept.
\<close>

definition brs__read :: "'b blob_stream \<Rightarrow> 'b blob_stream" where
  "brs__read p =
     (let t = nextTimer p;
          p1 = p\<lparr>timers := timers p @ [t], nextTimer := t + 1\<rparr>
      in if readDelay p \<noteq> 0 then p1\<lparr>timeoutId := Some t\<rparr> else p1)"

text \<open>
  The constructor \<open>BlobReadStream(source, options)\<close>; an option that is \<open>None\<close> is absent
  from \<open>options\<close>. \<open>options.chunkSize || source.size\<close> takes the size of the source when
  \<open>chunkSize\<close> is absent or 0.
\<close>

definition new_BlobReadStream ::
    "'b byte_source \<Rightarrow> nat option \<Rightarrow> nat option \<Rightarrow> bool option \<Rightarrow> 'b blob_stream" where
  "new_BlobReadStream src chunkSize delay pause0 =
     brs__read
       \<lparr>source = src,
        start = 0,
        readChunkSize = (case chunkSize of None \<Rightarrow> length (bytes src)
                         | Some c \<Rightarrow> if c = 0 then length (bytes src) else c),
        readDelay = (case delay of None \<Rightarrow> 0 | Some d \<Rightarrow> d),
        blob_readable = True,
        blob_paused = (case pause0 of None \<Rightarrow> False | Some b \<Rightarrow> b),
        timeoutId = None,
        timers = [],
        nextTimer = 0,
        produced = [],
        uncaught = []\<rparr>"

definition brs_pause :: "'b blob_stream \<Rightarrow> 'b blob_stream" where
  "brs_pause p = p\<lparr>blob_paused := True\<rparr>"

definition brs_resume :: "'b blob_stream \<Rightarrow> 'b blob_stream" where
  "brs_resume p = brs__read (p\<lparr>blob_paused := False\<rparr>)"

text \<open>\<open>destroy\<close>: \<open>clearTimeout\<close> of an identifier that is absent or not pending does nothing.\<close>

definition brs_destroy :: "'b blob_stream \<Rightarrow> 'b blob_stream" where
  "brs_destroy p =
     (let p1 = p\<lparr>blob_readable := False\<rparr>
      in case timeoutId p1 of
           None \<Rightarrow> p1
         | Some t \<Rightarrow> p1\<lparr>timers := removeAll t (timers p1)\<rparr>)"

text \<open>
  \<open>BlobReadStream.prototype._emitReadChunk\<close>; \<open>Inl\<close> is the exception the slice call
  throws. The call comes before the first assignment on its path, so a callback that
  throws leaves the fields as they were: the cursor is not advanced, no callback is
  scheduled and nothing is emitted. The cursor \<open>start\<close> never passes the size of the
  source (it is part of \<open>blob_inv0\<close> below), so the subtraction on natural numbers is the
  subtraction of the source.
\<close>

definition brs__emitReadChunk :: "'b blob_stream \<Rightarrow> blob_error + 'b blob_stream" where
  "brs__emitReadChunk p =
     (if blob_paused p \<or> \<not> blob_readable p then Inr p
      else
        (let chunkSize = min (length (bytes (source p)) - start p) (readChunkSize p)
         in if chunkSize = 0
            then Inr ((p\<lparr>blob_readable := False\<rparr>)\<lparr>produced := produced p @ [Ended]\<rparr>)
            else
              (let sourceEnd = start p + chunkSize
               in case slice_without_receiver (source p) (start p) sourceEnd of
                    Inl e \<Rightarrow> Inl e
                  | Inr chunk \<Rightarrow>
                      (let p1 = brs__read (p\<lparr>start := sourceEnd\<rparr>)
                       in Inr (p1\<lparr>produced := produced p1 @ [Chunk chunk]\<rparr>)))))"

text \<open>
  The scheduler runs the pending callback \<open>t\<close>. An exception that leaves the callback is
  reported by the environment and the producer stays as the callback left it.
\<close>

definition fire :: "nat \<Rightarrow> 'b blob_stream \<Rightarrow> 'b blob_stream" where
  "fire t p =
     (if t \<in> set (timers p)
      then (let p1 = p\<lparr>timers := removeAll t (timers p)\<rparr>
            in case brs__emitReadChunk p1 of
                 Inl e \<Rightarrow> p1\<lparr>uncaught := uncaught p1 @ [e]\<rparr>
               | Inr q \<Rightarrow> q)
      else p)"

text \<open>
  What can happen to a \<open>BlobReadStream\<close>: a call of the application (also from inside a
  listener: \<open>emit\<close> is the last statement of \<open>_emitReadChunk\<close> on each path), or the
  scheduler running a pending callback, in any order.
\<close>

datatype blob_action = Blob_pause | Blob_resume | Blob_destroy | Fire nat

fun blob_step :: "blob_action \<Rightarrow> 'b blob_stream \<Rightarrow> 'b blob_stream" where
  "blob_step Blob_pause p = brs_pause p"
| "blob_step Blob_resume p = brs_resume p"
| "blob_step Blob_destroy p = brs_destroy p"
| "blob_step (Fire t) p = fire t p"

fun blob_run :: "blob_action list \<Rightarrow> 'b blob_stream \<Rightarrow> 'b blob_stream" where
  "blob_run [] p = p"
| "blob_run (a # as) p = blob_run as (blob_step a p)"

text \<open>
  The producer left alone: the scheduler runs the pending callbacks, oldest first, until
  none is pending.
\<close>

function run_timers :: "'b blob_stream \<Rightarrow> 'b blob_stream" where
  "run_timers p = (case timers p of [] \<Rightarrow> p | t # ts \<Rightarrow> run_timers (fire t p))"
  by pat_completeness auto
termination
proof (relation "measures [\<lambda>p. length (bytes (source p)) - start p, \<lambda>p. length (timers p)]")
  show "wf (measures [\<lambda>p::'b blob_stream. length (bytes (source p)) - start p,
      \<lambda>p. length (timers p)])"
    by simp
next
  fix p :: "'b blob_stream" and t ts
  assume "timers p = t # ts"
  then show "(fire t p, p)
      \<in> measures [\<lambda>p. length (bytes (source p)) - start p, \<lambda>p. length (timers p)]"
    by (auto simp: fire_def brs__emitReadChunk_def brs__read_def Let_def
        split: sum.splits intro!: le_imp_less_Suc length_removeAll_less_eq)
qed

text \<open>The chunks among the events, in the order of their emission.\<close>

fun chunks_of :: "'b blob_event list \<Rightarrow> 'b list list" where
  "chunks_of [] = []"
| "chunks_of (Chunk c # es) = c # chunks_of es"
| "chunks_of (Ended # es) = chunks_of es"

section \<open>Wire messages and notifications\<close>

text \<open>
  A value that travels in position 1 of a message (stream metadata or a data chunk).
  \<open>util.pack\<close> and \<open>util.unpack\<close> are external and taken to be inverse to each other, so
  a message on the wire is the triple \<open>[code, data, bonus]\<close> itself.
\<close>

datatype jsval = Null | Bytes "nat list" | Text string

type_synonym frame = "nat \<times> jsval \<times> nat"

text \<open>The only \<open>throw\<close> of \<open>BinaryStream\<close>: \<open>new Error('Stream is not writable')\<close>.\<close>

datatype error = Stream_is_not_writable

text \<open>The events a \<open>BinaryStream\<close> emits on itself (the first argument of \<open>this.emit\<close>).\<close>

datatype stream_event = Data jsval | Pause | Resume | Drain | End | Close | Error

text \<open>
  The argument of the \<open>'error'\<close> event of a \<open>BinaryClient\<close>: the error the socket reported,
  \<open>'Received `<kind>` message for unknown stream: ' + streamId\<close>, or
  \<open>'Unrecognized message type received: ' + data[0]\<close>.
\<close>

datatype client_error = Socket_failure | Unknown_stream string nat | Unrecognized nat

text \<open>
  A notification is an event emitted on the client, or an event emitted on the stream
  object with the given reference.
\<close>

datatype notif =
    On_open
  | On_error client_error
  | On_close
  | On_stream nat jsval
  | On nat stream_event

section \<open>State\<close>

text \<open>The fields of a \<open>BinaryStream\<close> object (\<open>sid\<close> is its \<open>id\<close>).\<close>

record bstream =
  sid :: nat
  readable :: bool
  writable :: bool
  paused :: bool

text \<open>
  One connection: a \<open>BinaryClient\<close>, its socket and every \<open>BinaryStream\<close> object constructed
  on that socket.
  \<^item> \<open>heap\<close>: the stream objects in the order of their construction; a reference to a stream
    is its index. This is also the order in which the socket calls the listeners the
    streams' constructors added.
  \<^item> \<open>streams\<close>: the client's \<open>_streams\<close> object, from identifier to stream reference.
  \<^item> \<open>nextId\<close>: the client's \<open>_nextId\<close>.
  \<^item> \<open>sent\<close>: the messages handed to \<open>socket.send\<close>, oldest first.
  \<^item> \<open>send_ok\<close>: whether \<open>socket.send(...) !== false\<close> for the next message (the transport
    is external; \<open>send\<close> is taken not to throw).
  \<^item> \<open>close_requested\<close>: \<open>socket.close\<close> was called.
  \<^item> \<open>emitted\<close>: the notifications emitted so far, oldest first.
  \<^item> \<open>app\<close>: the memory of the application whose listeners run inside \<open>emit\<close>.
\<close>

record 'a conn =
  heap :: "bstream list"
  streams :: "nat \<rightharpoonup> nat"
  nextId :: nat
  sent :: "frame list"
  send_ok :: bool
  close_requested :: bool
  emitted :: "notif list"
  app :: 'a

text \<open>
  The listeners of the application, called synchronously by \<open>emit\<close>. The vendored
  \<open>EventEmitter.prototype.emit\<close> calls the listeners of the event's type and nothing else:
  with no listener it does nothing, also for \<open>'error'\<close>.
\<close>

type_synonym 'a listener = "notif \<Rightarrow> 'a conn \<Rightarrow> 'a conn"

definition quiet :: "'a listener" where
  "quiet n w = w"

definition emit :: "'a listener \<Rightarrow> notif \<Rightarrow> 'a conn \<Rightarrow> 'a conn" where
  "emit L n w = L n (w\<lparr>emitted := emitted w @ [n]\<rparr>)"

text \<open>Assignment to the fields of the stream object \<open>r\<close>.\<close>

definition upd :: "nat \<Rightarrow> (bstream \<Rightarrow> bstream) \<Rightarrow> 'a conn \<Rightarrow> 'a conn" where
  "upd r f w = w\<lparr>heap := (heap w)[r := f (heap w ! r)]\<rparr>"

section \<open>BinaryStream\<close>

text \<open>
  \<open>BinaryStream.prototype._write\<close>: packs \<open>[code, data, bonus]\<close>, hands it to the socket and
  returns whether the socket's answer is not \<open>false\<close>.
\<close>

definition bs__write :: "nat \<Rightarrow> jsval \<Rightarrow> nat \<Rightarrow> 'a conn \<Rightarrow> bool \<times> 'a conn" where
  "bs__write code data bonus w = (send_ok w, w\<lparr>sent := sent w @ [(code, data, bonus)]\<rparr>)"

text \<open>
  The constructor \<open>BinaryStream(socket, id, create, meta)\<close>: the new object is readable,
  writable and not paused; with \<open>create\<close> it sends the StreamOpen message. The result is
  the reference to the new object.
\<close>

definition new_BinaryStream :: "nat \<Rightarrow> bool \<Rightarrow> jsval \<Rightarrow> 'a conn \<Rightarrow> nat \<times> 'a conn" where
  "new_BinaryStream i create meta w =
     (let r = length (heap w);
          w1 = w\<lparr>heap := heap w @ [\<lparr>sid = i, readable = True, writable = True, paused = False\<rparr>]\<rparr>
      in (r, if create then snd (bs__write 1 meta i w1) else w1))"

text \<open>The listeners the constructor adds to the socket for \<open>'error'\<close> and \<open>'close'\<close>.\<close>

definition bs_socket_error :: "'a listener \<Rightarrow> nat \<Rightarrow> 'a conn \<Rightarrow> 'a conn" where
  "bs_socket_error L r w =
     emit L (On r Error) (upd r (\<lambda>s. s\<lparr>writable := False\<rparr>) (upd r (\<lambda>s. s\<lparr>readable := False\<rparr>) w))"

definition bs_socket_close :: "'a listener \<Rightarrow> nat \<Rightarrow> 'a conn \<Rightarrow> 'a conn" where
  "bs_socket_close L r w =
     emit L (On r Close) (upd r (\<lambda>s. s\<lparr>writable := False\<rparr>) (upd r (\<lambda>s. s\<lparr>readable := False\<rparr>) w))"

definition bs__onClose :: "'a listener \<Rightarrow> nat \<Rightarrow> 'a conn \<Rightarrow> 'a conn" where
  "bs__onClose L r w =
     emit L (On r Close) (upd r (\<lambda>s. s\<lparr>writable := False\<rparr>) (upd r (\<lambda>s. s\<lparr>readable := False\<rparr>) w))"

definition bs__onPause :: "'a listener \<Rightarrow> nat \<Rightarrow> 'a conn \<Rightarrow> 'a conn" where
  "bs__onPause L r w = upd r (\<lambda>s. s\<lparr>paused := True\<rparr>) (emit L (On r Pause) w)"

definition bs__onResume :: "'a listener \<Rightarrow> nat \<Rightarrow> 'a conn \<Rightarrow> 'a conn" where
  "bs__onResume L r w =
     upd r (\<lambda>s. s\<lparr>paused := False\<rparr>) (emit L (On r Drain) (emit L (On r Resume) w))"

text \<open>
  \<open>BinaryStream.prototype.write\<close> (the callback \<open>cb\<close> is only handed on to the socket):
  \<open>this.paused\<close> is read after \<open>_write\<close> has returned.
\<close>

definition bs_write :: "nat \<Rightarrow> jsval \<Rightarrow> 'a conn \<Rightarrow> error + bool \<times> 'a conn" where
  "bs_write r data w =
     (if writable (heap w ! r)
      then (let (out, w1) = bs__write 2 data (sid (heap w ! r)) w
            in Inr (\<not> paused (heap w1 ! r) \<and> out, w1))
      else Inl Stream_is_not_writable)"

definition bs_end :: "nat \<Rightarrow> 'a conn \<Rightarrow> 'a conn" where
  "bs_end r w =
     (let w1 = upd r (\<lambda>s. s\<lparr>readable := False\<rparr>) w
      in snd (bs__write 5 Null (sid (heap w1 ! r)) w1))"

definition bs_destroy :: "nat \<Rightarrow> 'a conn \<Rightarrow> 'a conn" where
  "bs_destroy r w =
     (let w1 = upd r (\<lambda>s. s\<lparr>readable := False\<rparr>) w;
          w2 = upd r (\<lambda>s. s\<lparr>writable := False\<rparr>) w1
      in snd (bs__write 6 Null (sid (heap w2 ! r)) w2))"

definition bs__onEnd :: "'a listener \<Rightarrow> nat \<Rightarrow> 'a conn \<Rightarrow> 'a conn" where
  "bs__onEnd L r w = emit L (On r End) (upd r (\<lambda>s. s\<lparr>readable := False\<rparr>) w)"

definition bs__onData :: "'a listener \<Rightarrow> nat \<Rightarrow> jsval \<Rightarrow> 'a conn \<Rightarrow> 'a conn" where
  "bs__onData L r data w = (if readable (heap w ! r) then emit L (On r (Data data)) w else w)"

definition bs_pause :: "'a listener \<Rightarrow> nat \<Rightarrow> 'a conn \<Rightarrow> 'a conn" where
  "bs_pause L r w =
     (let w1 = bs__onPause L r w in snd (bs__write 3 Null (sid (heap w1 ! r)) w1))"

definition bs_resume :: "'a listener \<Rightarrow> nat \<Rightarrow> 'a conn \<Rightarrow> 'a conn" where
  "bs_resume L r w =
     (let w1 = bs__onResume L r w in snd (bs__write 4 Null (sid (heap w1 ! r)) w1))"

section \<open>BinaryClient\<close>

text \<open>
  The constructor: no stream, \<open>_nextId = 0\<close>, nothing sent or emitted yet. What the
  socket answers to \<open>send\<close> and the application's memory are given.
\<close>

definition new_BinaryClient :: "bool \<Rightarrow> 'a \<Rightarrow> 'a conn" where
  "new_BinaryClient ok a =
     \<lparr>heap = [], streams = Map.empty, nextId = 0, sent = [], send_ok = ok,
      close_requested = False, emitted = [], app = a\<rparr>"

definition bc__receiveStream :: "nat \<Rightarrow> 'a conn \<Rightarrow> nat \<times> 'a conn" where
  "bc__receiveStream streamId w =
     (let (binaryStream, w1) = new_BinaryStream streamId False Null w
      in (binaryStream, w1\<lparr>streams := (streams w1)(streamId \<mapsto> binaryStream)\<rparr>))"

definition bc_createStream :: "jsval \<Rightarrow> 'a conn \<Rightarrow> nat \<times> 'a conn" where
  "bc_createStream meta w =
     (let streamId = nextId w;
          w0 = w\<lparr>nextId := nextId w + 2\<rparr>;
          (binaryStream, w1) = new_BinaryStream streamId True meta w0
      in (binaryStream, w1\<lparr>streams := (streams w1)(streamId \<mapsto> binaryStream)\<rparr>))"

definition bc_close :: "'a conn \<Rightarrow> 'a conn" where
  "bc_close w = w\<lparr>close_requested := True\<rparr>"

text \<open>
  The socket's \<open>'message'\<close> listener, from \<open>util.unpack\<close> on: the \<open>switch\<close> on \<open>data[0]\<close>.
  \<open>delete self._streams[streamId]\<close> is \<open>(streams w)(streamId := None)\<close>.
\<close>

definition bc_message :: "'a listener \<Rightarrow> frame \<Rightarrow> 'a conn \<Rightarrow> 'a conn" where
  "bc_message L m w =
     (case m of (code, data, streamId) \<Rightarrow>
        if code = 0 then w
        else if code = 1 then
          (let (binaryStream, w1) = bc__receiveStream streamId w
           in emit L (On_stream binaryStream data) w1)
        else if code = 2 then
          (case streams w streamId of
             Some binaryStream \<Rightarrow> bs__onData L binaryStream data w
           | None \<Rightarrow> emit L (On_error (Unknown_stream ''data'' streamId)) w)
        else if code = 3 then
          (case streams w streamId of
             Some binaryStream \<Rightarrow> bs__onPause L binaryStream w
           | None \<Rightarrow> emit L (On_error (Unknown_stream ''pause'' streamId)) w)
        else if code = 4 then
          (case streams w streamId of
             Some binaryStream \<Rightarrow> bs__onResume L binaryStream w
           | None \<Rightarrow> emit L (On_error (Unknown_stream ''resume'' streamId)) w)
        else if code = 5 then
          (case streams w streamId of
             Some binaryStream \<Rightarrow> bs__onEnd L binaryStream w
           | None \<Rightarrow> emit L (On_error (Unknown_stream ''end'' streamId)) w)
        else if code = 6 then
          (case streams w streamId of
             Some binaryStream \<Rightarrow>
               (let w1 = bs__onClose L binaryStream w
                in w1\<lparr>streams := (streams w1)(streamId := None)\<rparr>)
           | None \<Rightarrow> emit L (On_error (Unknown_stream ''close'' streamId)) w)
        else emit L (On_error (Unrecognized code)) w)"

text \<open>
  The socket's other events. The client's listener was added first (in the client's
  constructor), then one listener per stream, in the order the streams were constructed;
  the socket calls the listeners that were there when the event fired.
\<close>

definition socket_open :: "'a listener \<Rightarrow> 'a conn \<Rightarrow> 'a conn" where
  "socket_open L w = emit L On_open w"

definition socket_error :: "'a listener \<Rightarrow> 'a conn \<Rightarrow> 'a conn" where
  "socket_error L w =
     foldl (\<lambda>v r. bs_socket_error L r v) (emit L (On_error Socket_failure) w) [0..<length (heap w)]"

definition socket_close :: "'a listener \<Rightarrow> 'a conn \<Rightarrow> 'a conn" where
  "socket_close L w =
     foldl (\<lambda>v r. bs_socket_close L r v) (emit L On_close w) [0..<length (heap w)]"

section \<open>Everything that can happen to a connection\<close>

text \<open>
  The calls of the application (on the client, or on a stream it holds a reference to)
  and the events of the socket. \<open>BinaryClient.prototype.send\<close> is \<open>createStream\<close> followed
  by calls of \<open>write\<close>, \<open>end\<close> and \<open>destroy\<close> on the new stream, directly or through \<open>pipe\<close>.
\<close>

datatype action =
    CreateStream jsval
  | Send_close
  | Do_write nat jsval
  | Do_end nat
  | Do_destroy nat
  | Do_pause nat
  | Do_resume nat
  | Socket_open
  | Socket_error
  | Socket_close
  | Socket_message frame

text \<open>One action; \<open>Inl\<close> is an exception thrown to the caller.\<close>

fun step :: "'a listener \<Rightarrow> action \<Rightarrow> 'a conn \<Rightarrow> error + 'a conn" where
  "step L (CreateStream meta) w = Inr (snd (bc_createStream meta w))"
| "step L Send_close w = Inr (bc_close w)"
| "step L (Do_write r data) w = map_sum (\<lambda>e. e) snd (bs_write r data w)"
| "step L (Do_end r) w = Inr (bs_end r w)"
| "step L (Do_destroy r) w = Inr (bs_destroy r w)"
| "step L (Do_pause r) w = Inr (bs_pause L r w)"
| "step L (Do_resume r) w = Inr (bs_resume L r w)"
| "step L Socket_open w = Inr (socket_open L w)"
| "step L Socket_error w = Inr (socket_error L w)"
| "step L Socket_close w = Inr (socket_close L w)"
| "step L (Socket_message m) w = Inr (bc_message L m w)"

section \<open>Concrete connections and listeners\<close>

text \<open>A client that has just created its first stream, with metadata \<open>''file''\<close>.\<close>

definition conn1 :: "'a \<Rightarrow> 'a conn" where
  "conn1 a = snd (bc_createStream (Text ''file'') (new_BinaryClient True a))"

text \<open>
  An application that listens for \<open>'drain'\<close> on every stream: its listener calls
  \<open>write(d)\<close> on the stream that emitted the event and keeps what \<open>write\<close> returned.
\<close>

definition write_on_drain :: "jsval \<Rightarrow> (bool list) listener" where
  "write_on_drain d n w =
     (case n of
        On r ev \<Rightarrow>
          (if ev = Drain
           then (case bs_write r d w of
                   Inr (b, w') \<Rightarrow> w'\<lparr>app := app w' @ [b]\<rparr>
                 | Inl e \<Rightarrow> w)
           else w)
      | _ \<Rightarrow> w)"

section \<open>Notions used in the proofs\<close>

text \<open>
  The slices of \<open>xs\<close> of length \<open>c\<close> (the last one possibly shorter) from the offset \<open>s\<close> on.
\<close>

function slices :: "nat \<Rightarrow> 'b list \<Rightarrow> nat \<Rightarrow> 'b list list" where
  "slices c xs s =
     (if c = 0 \<or> length xs \<le> s then [] else take c (drop s xs) # slices c xs (s + c))"
  by pat_completeness auto
termination
  by (relation "measure (\<lambda>(c, xs, s). length xs - s)") auto

declare slices.simps [simp del]

text \<open>
  A producer that runs alone on a source whose slicing function answers without a
  receiver: readable, not paused, with exactly one callback pending.
\<close>

definition steady :: "'b blob_stream \<Rightarrow> bool" where
  "steady p \<longleftrightarrow>
     blob_readable p \<and> \<not> blob_paused p \<and> length (timers p) = 1
     \<and> start p \<le> length (bytes (source p)) \<and> 0 < readChunkSize p
     \<and> source p = Receiver_free (bytes (source p))"


text \<open>Every reference in the registry is a reference to a stream object.\<close>

definition refs_valid :: "'a conn \<Rightarrow> bool" where
  "refs_valid w \<longleftrightarrow> (\<forall>i r. streams w i = Some r \<longrightarrow> r < length (heap w))"

section \<open>Auxiliary facts\<close>

subsection \<open>Slices\<close>


lemma slices_done: "length xs \<le> s \<Longrightarrow> slices c xs s = []"
  by (simp add: slices.simps)

lemma slices_more:
  "0 < c \<Longrightarrow> s < length xs \<Longrightarrow> slices c xs s = take c (drop s xs) # slices c xs (s + c)"
  by (subst slices.simps) simp

lemma concat_slices: "0 < c \<Longrightarrow> concat (slices c xs s) = drop s xs"
proof (induction c xs s rule: slices.induct)
  case (1 c xs s)
  show ?case
  proof (cases "length xs \<le> s")
    case True
    then show ?thesis by (simp add: slices_done)
  next
    case False
    then have "concat (slices c xs s) = take c (drop s xs) @ drop (s + c) xs"
      using 1 by (simp add: slices_more)
    also have "\<dots> = drop s xs"
      by (metis add.commute append_take_drop_id drop_drop)
    finally show ?thesis .
  qed
qed

lemma ceil_step:
  assumes "0 < c" and "c \<le> d"
  shows "(d + c - 1) div c = Suc ((d - 1) div c)"
proof -
  have "d + c - 1 = (d - 1) + c" using assms by arith
  then have "(d + c - 1) div c = ((d - 1) + c) div c" by (rule arg_cong)
  also have "\<dots> = Suc ((d - 1) div c)" using assms(1) div_add_self2 [of c "d - 1"] by simp
  finally show ?thesis .
qed

lemma ceil_last:
  assumes "0 < d" and "d \<le> c"
  shows "(d + c - 1) div c = (1::nat)"
proof (rule div_nat_eqI)
  show "c * 1 \<le> d + c - 1" using assms by arith
  show "d + c - 1 < c * Suc 1" using assms by arith
qed

lemma length_slices: "0 < c \<Longrightarrow> length (slices c xs s) = (length xs - s + c - 1) div c"
proof (induction c xs s rule: slices.induct)
  case (1 c xs s)
  show ?case
  proof (cases "length xs \<le> s")
    case True
    then show ?thesis using "1.prems" by (simp add: slices_done)
  next
    case False
    define d where "d = length xs - s"
    have d: "0 < d" using False by (simp add: d_def)
    have eq: "length (slices c xs s) = Suc (length (slices c xs (s + c)))"
      using False "1.prems" by (simp add: slices_more)
    have ih: "length (slices c xs (s + c)) = (length xs - (s + c) + c - 1) div c"
      using "1.IH" False "1.prems" by simp
    show ?thesis
    proof (cases "c \<le> d")
      case True
      then have "length xs - (s + c) + c - 1 = d - 1" by (simp add: d_def)
      then have "length (slices c xs s) = Suc ((d - 1) div c)" using eq ih by simp
      also have "\<dots> = (d + c - 1) div c" using ceil_step [OF "1.prems" True] by simp
      finally show ?thesis by (simp only: d_def)
    next
      case False
      then have "length xs \<le> s + c" by (simp add: d_def)
      then have "length (slices c xs s) = 1" using eq by (simp add: slices_done)
      also have "\<dots> = (d + c - 1) div c" using ceil_last [of d c] d False by simp
      finally show ?thesis by (simp only: d_def)
    qed
  qed
qed

lemma nth_slices:
  "0 < c \<Longrightarrow> k < length (slices c xs s) \<Longrightarrow> slices c xs s ! k = take c (drop (s + k * c) xs)"
proof (induction c xs s arbitrary: k rule: slices.induct)
  case (1 c xs s)
  show ?case
  proof (cases "length xs \<le> s")
    case True
    then show ?thesis using "1.prems" by (simp add: slices_done)
  next
    case False
    then have eq: "slices c xs s = take c (drop s xs) # slices c xs (s + c)"
      using "1.prems" by (simp add: slices_more)
    show ?thesis
    proof (cases k)
      case 0
      then show ?thesis by (simp add: eq)
    next
      case (Suc j)
      then have "j < length (slices c xs (s + c))" using "1.prems" eq by simp
      then have "slices c xs (s + c) ! j = take c (drop (s + c + j * c) xs)"
        using 1 False by simp
      then show ?thesis using Suc by (simp add: eq add.assoc)
    qed
  qed
qed

lemma slices_lengths:
  "0 < c \<Longrightarrow> ys \<in> set (slices c xs s) \<Longrightarrow> ys \<noteq> [] \<and> length ys \<le> c"
proof (induction c xs s rule: slices.induct)
  case (1 c xs s)
  show ?case
  proof (cases "length xs \<le> s")
    case True
    then show ?thesis using "1.prems" by (simp add: slices_done)
  next
    case False
    then show ?thesis using 1 by (auto simp: slices_more)
  qed
qed

lemma slices_butlast_full:
  "0 < c \<Longrightarrow> ys \<in> set (butlast (slices c xs s)) \<Longrightarrow> length ys = c"
proof (induction c xs s rule: slices.induct)
  case (1 c xs s)
  show ?case
  proof (cases "length xs \<le> s")
    case True
    then show ?thesis using "1.prems" by (simp add: slices_done)
  next
    case False
    then have eq: "slices c xs s = take c (drop s xs) # slices c xs (s + c)"
      using "1.prems" by (simp add: slices_more)
    show ?thesis
    proof (cases "length xs \<le> s + c")
      case True
      then show ?thesis using "1.prems" by (simp add: eq slices_done)
    next
      case far: False
      then have "slices c xs (s + c) \<noteq> []"
        using "1.prems"(1) by (simp add: slices_more)
      then have "ys = take c (drop s xs) \<or> ys \<in> set (butlast (slices c xs (s + c)))"
        using "1.prems" by (simp add: eq)
      then show ?thesis using 1 False far by auto
    qed
  qed
qed

lemma blob_slice_chunk:
  "s \<le> length xs \<Longrightarrow> blob_slice xs s (s + min (length xs - s) c) = take c (drop s xs)"
  by (simp add: blob_slice_def Let_def min_def)


lemmas blob_defs = brs__read_def brs_pause_def brs_resume_def brs_destroy_def
  brs__emitReadChunk_def fire_def Let_def

declare run_timers.simps [simp del]

lemma run_timers_Nil: "timers p = [] \<Longrightarrow> run_timers p = p"
  by (subst run_timers.simps) simp

lemma run_timers_Cons: "timers p = t # ts \<Longrightarrow> run_timers p = run_timers (fire t p)"
  by (subst run_timers.simps) simp

lemma chunks_of_append: "chunks_of (es @ fs) = chunks_of es @ chunks_of fs"
  by (induction es rule: chunks_of.induct) simp_all

lemma chunks_of_map_Chunk: "chunks_of (map Chunk cs) = cs"
  by (induction cs) simp_all

subsection \<open>The producer left alone, when the slice call answers\<close>

lemma slice_answers:
  assumes "src = Receiver_free (bytes src)" and "s \<le> length (bytes src)"
  shows "slice_without_receiver src s (s + min (length (bytes src) - s) c)
     = Inr (take c (drop s (bytes src)))"
proof -
  have "slice_without_receiver (Receiver_free (bytes src)) s (s + min (length (bytes src) - s) c)
      = Inr (take c (drop s (bytes src)))"
    using assms(2) by (simp add: blob_slice_chunk)
  then show ?thesis using assms(1) by simp
qed

lemma fire_steady_end:
  assumes "steady p" and "timers p = [t]" and "start p = length (bytes (source p))"
  shows "fire t p = p\<lparr>timers := [], blob_readable := False, produced := produced p @ [Ended]\<rparr>"
  using assms by (simp add: steady_def blob_defs)

lemma fire_steady_chunk:
  assumes "steady p" and "timers p = [t]" and "start p < length (bytes (source p))"
  shows "\<exists>q. fire t p = q \<and> steady q
     \<and> source q = source p \<and> readChunkSize q = readChunkSize p
     \<and> start q = start p + min (length (bytes (source p)) - start p) (readChunkSize p)
     \<and> produced q
        = produced p @ [Chunk (take (readChunkSize p) (drop (start p) (bytes (source p))))]"
proof -
  have sl: "slice_without_receiver (source p) (start p)
        (start p + min (length (bytes (source p)) - start p) (readChunkSize p))
      = Inr (take (readChunkSize p) (drop (start p) (bytes (source p))))"
    using assms by (intro slice_answers) (simp_all add: steady_def)
  show ?thesis
    using assms by (auto simp add: steady_def blob_defs sl)
qed

lemma run_timers_steady:
  "steady p \<Longrightarrow>
     produced (run_timers p) =
       produced p @ map Chunk (slices (readChunkSize p) (bytes (source p)) (start p)) @ [Ended]
     \<and> \<not> blob_readable (run_timers p) \<and> timers (run_timers p) = []
     \<and> start (run_timers p) = length (bytes (source p))
     \<and> uncaught (run_timers p) = uncaught p"
proof (induction "length (bytes (source p)) - start p" arbitrary: p rule: less_induct)
  case less
  from less.prems obtain t where t: "timers p = [t]"
    by (auto simp: steady_def length_Suc_conv)
  have le: "start p \<le> length (bytes (source p))" and c: "0 < readChunkSize p"
    using less.prems by (simp_all add: steady_def)
  show ?case
  proof (cases "start p = length (bytes (source p))")
    case True
    have "run_timers p = fire t p"
      using t fire_steady_end [OF less.prems t True]
      by (simp add: run_timers_Cons run_timers_Nil)
    then show ?thesis
      using fire_steady_end [OF less.prems t True] True by (simp add: slices_done)
  next
    case False
    then have lt: "start p < length (bytes (source p))" using le by simp
    obtain q where q: "fire t p = q" "steady q" "source q = source p"
        "readChunkSize q = readChunkSize p"
        "start q = start p + min (length (bytes (source p)) - start p) (readChunkSize p)"
        "produced q
          = produced p @ [Chunk (take (readChunkSize p) (drop (start p) (bytes (source p))))]"
      using fire_steady_chunk [OF less.prems t lt] by blast
    have uq: "uncaught q = uncaught p"
      using q(1) less.prems t lt slice_answers [of "source p" "start p" "readChunkSize p"]
      by (auto simp: steady_def blob_defs)
    have "length (bytes (source q)) - start q < length (bytes (source p)) - start p"
      using q(3,5) lt c by (auto simp: min_def)
    from less.hyps [OF this q(2)]
    have ih: "produced (run_timers q) =
          produced q @ map Chunk (slices (readChunkSize q) (bytes (source q)) (start q)) @ [Ended]
        \<and> \<not> blob_readable (run_timers q) \<and> timers (run_timers q) = []
        \<and> start (run_timers q) = length (bytes (source q))
        \<and> uncaught (run_timers q) = uncaught q" .
    have rest: "slices (readChunkSize p) (bytes (source p)) (start q)
        = slices (readChunkSize p) (bytes (source p)) (start p + readChunkSize p)"
    proof (cases "readChunkSize p \<le> length (bytes (source p)) - start p")
      case True
      then show ?thesis by (simp add: q(5) min_def)
    next
      case False
      then show ?thesis using lt by (simp add: q(5) min_def slices_done)
    qed
    have "run_timers p = run_timers q" using t q(1) by (simp add: run_timers_Cons)
    then show ?thesis
      using ih q(3,4,6) uq rest slices_more [OF c lt] by simp
  qed
qed

lemma new_BlobReadStream_steady:
  "0 < c \<Longrightarrow> steady (new_BlobReadStream (Receiver_free xs) (Some c) d None)"
  by (simp add: steady_def new_BlobReadStream_def blob_defs)

text \<open>
  On a source whose slicing function answers without a receiver, the producer left to
  run with a chunk size \<open>c > 0\<close> emits \<open>ceil(S / c)\<close> chunks and then \<open>end\<close>; the \<open>k\<close>-th
  chunk is the slice of \<open>c\<close> bytes at offset \<open>k * c\<close> (or what is left of the source), and
  the chunks concatenate to the source.
\<close>

lemma chunking_when_slice_answers:
  assumes "0 < c"
  shows "let p = run_timers (new_BlobReadStream (Receiver_free xs) (Some c) d None);
             cs = chunks_of (produced p)
         in produced p = map Chunk cs @ [Ended]
          \<and> concat cs = xs
          \<and> length cs = (length xs + c - 1) div c
          \<and> (\<forall>k < length cs. cs ! k = take c (drop (k * c) xs))
          \<and> (\<forall>ys \<in> set cs. ys \<noteq> [] \<and> length ys \<le> c)
          \<and> (\<forall>ys \<in> set (butlast cs). length ys = c)"
proof -
  let ?p0 = "new_BlobReadStream (Receiver_free xs) (Some c) d None"
  have p0: "bytes (source ?p0) = xs" "start ?p0 = 0" "readChunkSize ?p0 = c" "produced ?p0 = []"
    using assms by (simp_all add: new_BlobReadStream_def blob_defs)
  have out: "produced (run_timers ?p0) = map Chunk (slices c xs 0) @ [Ended]"
    using run_timers_steady [OF new_BlobReadStream_steady [OF assms, of xs d]] p0 by simp
  show ?thesis
    unfolding Let_def out
    using assms concat_slices [OF assms, of xs 0] length_slices [OF assms, of xs 0]
      nth_slices [OF assms, of _ xs 0] slices_lengths [OF assms, of _ xs 0]
      slices_butlast_full [OF assms, of _ xs 0]
    by (simp add: chunks_of_append chunks_of_map_Chunk)
qed

subsection \<open>The producer on a Blob\<close>

text \<open>
  On a \<open>Blob\<close> that is not empty every callback that gets to the slice call throws, so
  whatever the application and the scheduler do, the cursor stays at 0 and no event is
  ever emitted.
\<close>

lemma native_blob_step:
  assumes "source p = Native_blob xs" and "xs \<noteq> []" and "0 < readChunkSize p"
    and "start p = 0" and "produced p = []"
  shows "source (blob_step a p) = Native_blob xs \<and> 0 < readChunkSize (blob_step a p)
     \<and> start (blob_step a p) = 0 \<and> produced (blob_step a p) = []"
  using assms by (cases a) (auto simp: blob_defs min_def split: option.splits)

lemma native_blob_run:
  assumes "source p = Native_blob xs" and "xs \<noteq> []" and "0 < readChunkSize p"
    and "start p = 0" and "produced p = []"
  shows "start (blob_run as p) = 0 \<and> produced (blob_run as p) = []"
  using assms
proof (induction as arbitrary: p)
  case Nil
  then show ?case by simp
next
  case (Cons a as)
  from native_blob_step [OF Cons.prems, of a] Cons.prems(2)
  show ?case by (simp add: Cons.IH)
qed

lemma native_blob_never_emits:
  "xs \<noteq> [] \<Longrightarrow> produced (blob_run as (new_BlobReadStream (Native_blob xs) cs d pz)) = []"
  by (rule native_blob_run [THEN conjunct2, of _ xs])
     (auto simp: new_BlobReadStream_def blob_defs split: option.splits)

subsection \<open>The producer under any schedule\<close>














subsection \<open>Streams and the client\<close>


lemmas bs_defs = emit_def quiet_def upd_def bs__write_def new_BinaryStream_def
  bs_socket_error_def bs_socket_close_def bs__onClose_def bs__onPause_def bs__onResume_def
  bs_write_def bs_end_def bs_destroy_def bs__onEnd_def bs__onData_def bs_pause_def
  bs_resume_def Let_def

lemmas bc_defs = new_BinaryClient_def bc__receiveStream_def bc_createStream_def bc_close_def
  bc_message_def socket_open_def

lemma conn1_eq:
  "conn1 a = \<lparr>heap = [\<lparr>sid = 0, readable = True, writable = True, paused = False\<rparr>],
      streams = [0 \<mapsto> 0], nextId = 2, sent = [(1, Text ''file'', 0)], send_ok = True,
      close_requested = False, emitted = [], app = a\<rparr>"
  by (simp add: conn1_def bc_defs bs_defs)

lemma foldl_close_streams:
  "streams (foldl (\<lambda>v r. bs_socket_close quiet r v) w rs) = streams w"
  by (induction rs arbitrary: w) (simp_all add: bs_defs)

lemma foldl_error_streams:
  "streams (foldl (\<lambda>v r. bs_socket_error quiet r v) w rs) = streams w"
  by (induction rs arbitrary: w) (simp_all add: bs_defs)

lemma nth_list_update_total:
  "(xs[i := x]) ! j = (if i = j \<and> i < length xs then x else xs ! j)"
  by (cases "i < length xs") (auto simp: nth_list_update list_update_beyond)

lemma foldl_close_emitted:
  "emitted (foldl (\<lambda>v r. bs_socket_close quiet r v) w rs) = emitted w @ map (\<lambda>r. On r Close) rs"
  by (induction rs arbitrary: w) (simp_all add: bs_defs)

lemma foldl_close_heap:
  "heap (foldl (\<lambda>v r. bs_socket_close quiet r v) w rs) =
     map (\<lambda>k. if k \<in> set rs then (heap w ! k)\<lparr>readable := False, writable := False\<rparr> else heap w ! k)
       [0..<length (heap w)]"
proof (induction rs arbitrary: w)
  case Nil
  show ?case by (simp add: map_nth)
next
  case (Cons r rs)
  show ?case
    by (simp add: Cons.IH) (auto simp: bs_defs nth_list_update_total)
qed

lemma socket_close_streams: "streams (socket_close quiet w) = streams w"
  by (simp add: socket_close_def foldl_close_streams emit_def quiet_def)

lemma socket_error_streams: "streams (socket_error quiet w) = streams w"
  by (simp add: socket_error_def foldl_error_streams emit_def quiet_def)

lemma socket_close_emitted:
  "emitted (socket_close quiet w) =
     emitted w @ On_close # map (\<lambda>k. On k Close) [0..<length (heap w)]"
  by (simp add: socket_close_def foldl_close_emitted emit_def quiet_def)

lemma socket_close_heap:
  "heap (socket_close quiet w) = map (\<lambda>s. s\<lparr>readable := False, writable := False\<rparr>) (heap w)"
proof (rule nth_equalityI)
  show "length (heap (socket_close quiet w))
      = length (map (\<lambda>s. s\<lparr>readable := False, writable := False\<rparr>) (heap w))"
    by (simp add: socket_close_def foldl_close_heap emit_def quiet_def)
next
  fix k assume "k < length (heap (socket_close quiet w))"
  then have "k < length (heap w)"
    by (simp add: socket_close_def foldl_close_heap emit_def quiet_def)
  then show "heap (socket_close quiet w) ! k
      = map (\<lambda>s. s\<lparr>readable := False, writable := False\<rparr>) (heap w) ! k"
    by (simp add: socket_close_def foldl_close_heap emit_def quiet_def)
qed

text \<open>
  The registry of a client only ever holds references to stream objects: this is what
  the theorems below assume of a registered stream.
\<close>

lemma foldl_close_length:
  "length (heap (foldl (\<lambda>v r. bs_socket_close quiet r v) w rs)) = length (heap w)"
  by (induction rs arbitrary: w) (simp_all add: bs_defs)

lemma foldl_error_length:
  "length (heap (foldl (\<lambda>v r. bs_socket_error quiet r v) w rs)) = length (heap w)"
  by (induction rs arbitrary: w) (simp_all add: bs_defs)

lemma refs_valid_new: "refs_valid (new_BinaryClient ok a)"
  by (simp add: refs_valid_def new_BinaryClient_def)

lemma refs_valid_step:
  assumes "refs_valid w" and "step quiet a w = Inr w'"
  shows "refs_valid w'"
proof (cases a)
  case (Socket_message m)
  obtain code data i where m: "m = (code, data, i)" by (cases m)
  show ?thesis using assms Socket_message m
    by (auto simp: refs_valid_def bc_defs bs_defs less_Suc_eq split: option.splits if_splits)
next
  case (Do_write r d)
  then show ?thesis using assms
    by (auto simp: refs_valid_def bs_defs split: if_splits)
next
  case Socket_close
  then show ?thesis using assms
    by (auto simp: refs_valid_def socket_close_def foldl_close_streams foldl_close_length emit_def quiet_def)
next
  case Socket_error
  then show ?thesis using assms
    by (auto simp: refs_valid_def socket_error_def foldl_error_streams foldl_error_length emit_def quiet_def)
next
  case (CreateStream meta)
  then show ?thesis using assms
    by (auto simp: refs_valid_def bc_defs bs_defs less_Suc_eq split: if_splits)
qed (use assms in \<open>auto simp: refs_valid_def bc_defs bs_defs\<close>)

section \<open>Properties of BlobReadStream\<close>

text \<open>
  C6. A \<open>BlobReadStream\<close> is constructed on a \<open>Blob\<close> of the five bytes 1 to 5 with the
  chunk size 2, as \<open>BinaryClient.prototype.send\<close> does, and left to run. The first
  callback computes the chunk size 2 and calls the \<open>Blob\<close>'s slicing function without a
  receiver, which throws: the cursor stays at 0, no further callback is scheduled, and
  neither a chunk nor \<open>end\<close> is emitted, where the claim has three chunks that make up
  the source. Calling \<open>resume()\<close> and letting the producer run again only throws again.
\<close>

theorem slice_call_throws:
  "run_timers (new_BlobReadStream (Native_blob [1, 2, 3, 4, 5 :: nat]) (Some 2) None None) =
     \<lparr>source = Native_blob [1, 2, 3, 4, 5], start = 0, readChunkSize = 2, readDelay = 0,
      blob_readable = True, blob_paused = False, timeoutId = None, timers = [],
      nextTimer = 1, produced = [], uncaught = [TypeError]\<rparr>
   \<and> produced (run_timers (brs_resume
        (run_timers (new_BlobReadStream (Native_blob [1, 2, 3, 4, 5 :: nat]) (Some 2) None None))))
       = []
   \<and> uncaught (run_timers (brs_resume
        (run_timers (new_BlobReadStream (Native_blob [1, 2, 3, 4, 5 :: nat]) (Some 2) None None))))
       = [TypeError, TypeError]"
  by (simp add: run_timers.simps new_BlobReadStream_def blob_defs)




section \<open>Properties of BinaryStream\<close>

text \<open>
  C3, as the claim states it, fails: the client calls \<open>pause()\<close> on the stream it has
  just created. No Pause message has arrived from the peer and the socket reports no
  backpressure, yet \<open>write\<close> returns \<open>false\<close>: \<open>pause()\<close> sets the same \<open>paused\<close> flag
  (through \<open>_onPause\<close>) that a Pause message of the peer sets.
\<close>

theorem write_false_after_local_pause:
  "send_ok (bs_pause quiet 0 (conn1 ()))
   \<and> writable (heap (bs_pause quiet 0 (conn1 ())) ! 0)
   \<and> emitted (bs_pause quiet 0 (conn1 ())) = [On 0 Pause]
   \<and> sent (bs_pause quiet 0 (conn1 ())) = [(1, Text ''file'', 0), (3, Null, 0)]
   \<and> bs_write 0 (Bytes [104, 105]) (bs_pause quiet 0 (conn1 ())) =
       Inr (False, (conn1 ())\<lparr>heap := [\<lparr>sid = 0, readable = True, writable = True, paused = True\<rparr>],
              emitted := [On 0 Pause],
              sent := [(1, Text ''file'', 0), (3, Null, 0), (2, Bytes [104, 105], 0)]\<rparr>)"
  by (simp add: conn1_eq bs_defs)

text \<open>
  C3, amended. \<open>write(data)\<close> throws "Stream is not writable" exactly when the stream's
  \<open>writable\<close> flag is false. When the flag is true it sends one Data message
  \<open>[2, data, id]\<close> carrying this stream's identifier (and does nothing else) and returns a
  boolean; the result is \<open>false\<close> if and only if the socket's \<open>send\<close> answered \<open>false\<close>
  (backpressure) or the stream's \<open>paused\<close> flag is set, and \<open>true\<close> otherwise. The flag is
  set when a Pause message of the peer is processed and also when \<open>pause()\<close> is called
  locally; it is cleared when a Resume message is processed and when \<open>resume()\<close> is called
  locally.
\<close>

theorem write_result:
  "((\<exists>e. bs_write r d w = Inl e) = (\<not> writable (heap w ! r)))
   \<and> ((bs_write r d w = Inl Stream_is_not_writable) = (\<not> writable (heap w ! r)))
   \<and> (writable (heap w ! r) \<longrightarrow>
        (\<exists>b. bs_write r d w = Inr (b, w\<lparr>sent := sent w @ [(2, d, sid (heap w ! r))]\<rparr>)
           \<and> (b = False) = (\<not> send_ok w \<or> paused (heap w ! r))
           \<and> (b = True) = (send_ok w \<and> \<not> paused (heap w ! r))))
   \<and> (r < length (heap w) \<longrightarrow>
        paused (heap (bs_pause quiet r w) ! r) \<and> \<not> paused (heap (bs_resume quiet r w) ! r))
   \<and> (r < length (heap w) \<and> streams w i = Some r \<longrightarrow>
        paused (heap (bc_message quiet (3, p, i) w) ! r)
        \<and> \<not> paused (heap (bc_message quiet (4, p, i) w) ! r))"
  by (auto simp: bs_defs bc_defs)

theorem write_result_witness:
  "bs_write 0 (Bytes [104, 105]) (conn1 ())
     = Inr (True, (conn1 ())\<lparr>sent := [(1, Text ''file'', 0), (2, Bytes [104, 105], 0)]\<rparr>)
   \<and> bs_write 0 (Bytes [104, 105]) (bs_destroy 0 (conn1 ())) = Inl Stream_is_not_writable
   \<and> paused (heap (bs_pause quiet 0 (conn1 ())) ! 0)
   \<and> paused (heap (bc_message quiet (3, Null, 0) (conn1 ())) ! 0)"
  using write_result [of 0 "Bytes [104, 105]" "conn1 ()" 0 Null]
    write_result [of 0 "Bytes [104, 105]" "bs_destroy 0 (conn1 ())"]
  by (auto simp add: conn1_eq bs_destroy_def upd_def bs__write_def)

text \<open>
  C1. \<open>end()\<close> on a fresh stream (readable, writable, identifier 0) sends the End message
  \<open>[5, null, 0]\<close>, but it assigns \<open>false\<close> to \<open>readable\<close> and leaves \<open>writable\<close> true: the
  code gives up the read half, where the claim has it give up the write half and leave
  \<open>readable\<close> untouched.
\<close>

theorem end_clears_readable:
  "bs_end 0 (conn1 ()) =
     (conn1 ())\<lparr>heap := [\<lparr>sid = 0, readable = False, writable = True, paused = False\<rparr>],
                sent := [(1, Text ''file'', 0), (5, Null, 0)]\<rparr>"
  by (simp add: conn1_eq bs_defs)

text \<open>
  C2. After \<open>end()\<close> on a fresh stream, \<open>write\<close> does not throw: it sends the Data message
  after the End message and returns \<open>true\<close>. An inbound Data message for the stream is
  dropped without a notification, because \<open>end()\<close> cleared \<open>readable\<close>.
\<close>

theorem write_after_end_succeeds:
  "bs_write 0 (Bytes [104, 105]) (bs_end 0 (conn1 ())) =
     Inr (True, (conn1 ())\<lparr>heap := [\<lparr>sid = 0, readable = False, writable = True, paused = False\<rparr>],
                sent := [(1, Text ''file'', 0), (5, Null, 0), (2, Bytes [104, 105], 0)]\<rparr>)
   \<and> bc_message quiet (2, Bytes [1], 0) (bs_end 0 (conn1 ())) = bs_end 0 (conn1 ())"
  by (simp add: conn1_eq bs_defs bc_defs)

text \<open>
  C8, as the claim states it, fails: the stream with identifier 0 is paused by a Pause
  message of the peer, the socket reports no backpressure, and a Resume message arrives.
  The listener of \<open>'drain'\<close> calls \<open>write\<close>, which returns \<open>false\<close>: the \<open>paused\<close> flag is
  still set while \<open>'resume'\<close> and \<open>'drain'\<close> are emitted.
\<close>

theorem drain_listener_write_returns_false:
  "send_ok (bc_message quiet (3, Null, 0) (conn1 []))
   \<and> emitted (bc_message (write_on_drain (Bytes [7])) (4, Null, 0) (bc_message quiet (3, Null, 0) (conn1 [])))
       = [On 0 Pause, On 0 Resume, On 0 Drain]
   \<and> app (bc_message (write_on_drain (Bytes [7])) (4, Null, 0) (bc_message quiet (3, Null, 0) (conn1 [])))
       = [False]"
  by (simp add: conn1_eq bc_defs bs_defs write_on_drain_def)

text \<open>
  C8, amended. When a Resume message for a registered, writable stream is processed, the
  stream emits \<open>'resume'\<close>, then \<open>'drain'\<close>, and only then clears its \<open>paused\<close> flag. A
  \<open>write\<close> performed by the \<open>'drain'\<close> listener therefore still sees the flag as it was
  before the message: it returns \<open>true\<close> only if the stream was not paused (and the socket
  reports no backpressure). Once the message has been processed the stream is not paused,
  and \<open>write\<close> returns \<open>true\<close> unless the socket reports backpressure.
\<close>

theorem resume_message_order:
  assumes "streams w i = Some r" and "r < length (heap w)" and "writable (heap w ! r)"
  shows "let w' = bc_message (write_on_drain d) (4, p, i) w in
      emitted w' = emitted w @ [On r Resume, On r Drain]
    \<and> app w' = app w @ [send_ok w \<and> \<not> paused (heap w ! r)]
    \<and> \<not> paused (heap w' ! r)
    \<and> (\<exists>w''. bs_write r d' w' = Inr (send_ok w, w''))"
  using assms by (auto simp add: bc_defs bs_defs write_on_drain_def)

theorem resume_message_order_witness:
  "app (bc_message (write_on_drain (Bytes [7])) (4, Null, 0) (bs_pause quiet 0 (conn1 []))) = [False]
   \<and> emitted (bc_message (write_on_drain (Bytes [7])) (4, Null, 0) (bs_pause quiet 0 (conn1 [])))
       = [On 0 Pause, On 0 Resume, On 0 Drain]
   \<and> \<not> paused (heap (bc_message (write_on_drain (Bytes [7])) (4, Null, 0) (bs_pause quiet 0 (conn1 []))) ! 0)"
  using resume_message_order [of "bs_pause quiet 0 (conn1 [])" 0 0 "Bytes [7]" Null "Bytes [8]"]
  by (simp add: conn1_eq bs_defs)

section \<open>Properties of BinaryClient\<close>

text \<open>
  C4, as the claim states it, fails: after \<open>destroy()\<close> on the stream a client has just
  created, the Close message \<open>[6, null, 0]\<close> has been sent and the identifier 0 is still in
  the client's registry.
\<close>

theorem destroy_keeps_registry_entry:
  "step quiet (Do_destroy 0) (conn1 ()) = Inr (bs_destroy 0 (conn1 ()))
   \<and> sent (bs_destroy 0 (conn1 ())) = [(1, Text ''file'', 0), (6, Null, 0)]
   \<and> heap (bs_destroy 0 (conn1 ()))
       = [\<lparr>sid = 0, readable = False, writable = False, paused = False\<rparr>]
   \<and> streams (bs_destroy 0 (conn1 ())) 0 = Some 0"
  by (simp add: conn1_eq bs_defs)

text \<open>
  C4, amended. The registry changes exactly as follows. \<open>createStream\<close> adds the entry for
  the identifier it allocates and a StreamOpen message adds (or replaces) the entry for
  the identifier it carries, both pointing to the new stream object; a Close message
  removes the entry of the identifier it carries; every other action leaves the registry
  as it is. In particular a local \<open>destroy()\<close> on a stream sets its \<open>readable\<close> and
  \<open>writable\<close> to false, sends the Close message with the stream's identifier and leaves
  the registry, that identifier included, as it is.
\<close>

theorem registry_changes:
  "step quiet a w = Inr w' \<Longrightarrow>
     streams w' =
       (case a of
          CreateStream meta \<Rightarrow> (streams w)(nextId w \<mapsto> length (heap w))
        | Socket_message m \<Rightarrow>
            (case m of (code, data, i) \<Rightarrow>
               if code = 1 then (streams w)(i \<mapsto> length (heap w))
               else if code = 6 then (streams w)(i := None)
               else streams w)
        | _ \<Rightarrow> streams w)
     \<and> (\<forall>r. a = Do_destroy r \<longrightarrow>
           streams w' = streams w \<and> sent w' = sent w @ [(6, Null, sid (heap w ! r))]
           \<and> (r < length (heap w) \<longrightarrow>
                heap w' = (heap w)[r := (heap w ! r)\<lparr>readable := False, writable := False\<rparr>]
                \<and> \<not> readable (heap w' ! r) \<and> \<not> writable (heap w' ! r)))"
proof (cases a)
  case (Socket_message m)
  obtain code data i where m: "m = (code, data, i)" by (cases m)
  assume "step quiet a w = Inr w'"
  then show ?thesis using Socket_message m
    by (auto simp: bc_defs bs_defs split: option.splits)
next
  case (Do_write r d)
  assume "step quiet a w = Inr w'"
  then show ?thesis using Do_write
    by (auto simp: bs_defs split: if_splits)
next
  case Socket_close
  assume "step quiet a w = Inr w'"
  then show ?thesis using Socket_close
    by (auto simp: socket_close_streams)
next
  case Socket_error
  assume "step quiet a w = Inr w'"
  then show ?thesis using Socket_error
    by (auto simp: socket_error_streams)
next
  case (Do_destroy r)
  assume "step quiet a w = Inr w'"
  then show ?thesis using Do_destroy
    by (cases "r < length (heap w)") (auto simp: bs_defs list_update_beyond)
qed (auto simp: bc_defs bs_defs)

theorem registry_changes_witness:
  "streams (bc_message quiet (6, Null, 0) (conn1 ())) = Map.empty
   \<and> streams (bs_destroy 0 (conn1 ())) = [0 \<mapsto> 0]
   \<and> sent (bs_destroy 0 (conn1 ())) = [(1, Text ''file'', 0), (6, Null, 0)]
   \<and> heap (bs_destroy 0 (conn1 ()))
       = [\<lparr>sid = 0, readable = False, writable = False, paused = False\<rparr>]
   \<and> streams (snd (bc_createStream Null (conn1 ()))) = [0 \<mapsto> 0, 2 \<mapsto> 1]"
  using registry_changes [of "Socket_message (6, Null, 0)" "conn1 ()" "bc_message quiet (6, Null, 0) (conn1 ())"]
    registry_changes [of "Do_destroy 0" "conn1 ()" "bs_destroy 0 (conn1 ())"]
    registry_changes [of "CreateStream Null" "conn1 ()" "snd (bc_createStream Null (conn1 ()))"]
  by (simp add: conn1_eq)

text \<open>
  C5. Let the identifier \<open>i\<close> be registered for the stream \<open>r\<close>. Processing a Close message
  for \<open>i\<close> does not throw, sets the stream's \<open>readable\<close> and \<open>writable\<close> to false, emits
  one \<open>'close'\<close> on the stream and removes \<open>i\<close> from the registry. Processing a second
  Close message for \<open>i\<close> does not throw either and emits no \<open>'close'\<close>: the only
  notification is the client's error for an unknown stream, and nothing else changes.
  Calling \<open>destroy()\<close> twice on the stream does not throw and emits no notification at
  all.
\<close>

theorem close_message_effects:
  assumes "streams w i = Some r" and "r < length (heap w)"
  shows "\<exists>w1 w2 wa wb.
      step quiet (Socket_message (6, d, i)) w = Inr w1
    \<and> \<not> readable (heap w1 ! r) \<and> \<not> writable (heap w1 ! r)
    \<and> emitted w1 = emitted w @ [On r Close]
    \<and> streams w1 = (streams w)(i := None)
    \<and> step quiet (Socket_message (6, d', i)) w1 = Inr w2
    \<and> emitted w2 = emitted w1 @ [On_error (Unknown_stream ''close'' i)]
    \<and> heap w2 = heap w1 \<and> streams w2 = streams w1 \<and> sent w2 = sent w1
    \<and> step quiet (Do_destroy r) w = Inr wa
    \<and> step quiet (Do_destroy r) wa = Inr wb
    \<and> emitted wa = emitted w \<and> emitted wb = emitted w
    \<and> heap wb = heap wa \<and> streams wb = streams w"
  using assms by (simp add: bc_defs bs_defs)

theorem close_message_effects_witness:
  "step quiet (Socket_message (6, Null, 0)) (conn1 ()) =
     Inr ((conn1 ())\<lparr>heap := [\<lparr>sid = 0, readable = False, writable = False, paused = False\<rparr>],
                     emitted := [On 0 Close], streams := Map.empty\<rparr>)
   \<and> emitted (bc_message quiet (6, Null, 0) (bc_message quiet (6, Null, 0) (conn1 ())))
       = [On 0 Close, On_error (Unknown_stream ''close'' 0)]
   \<and> emitted (bs_destroy 0 (bs_destroy 0 (conn1 ()))) = []"
  using close_message_effects [of "conn1 ()" 0 0 Null Null]
  by (simp add: conn1_eq bc_defs bs_defs)

text \<open>
  C9, as the claim states it, fails: after the socket's \<open>'close'\<close> event the identifier 0
  of the stream the client created is still in the registry.
\<close>

theorem socket_close_keeps_registry:
  "streams (socket_close quiet (conn1 ())) 0 = Some 0"
  by (simp add: socket_close_streams conn1_eq)

text \<open>
  C9, amended. When the socket closes, the client emits \<open>'close'\<close> and then every stream
  object constructed on the socket, in particular every registered stream, is marked
  neither readable nor writable and emits exactly one \<open>'close'\<close>. The registry is left as
  it was: no entry is removed.
\<close>

theorem socket_close_cascade:
  assumes "streams w i = Some r" and "r < length (heap w)"
  shows "\<exists>w'. step quiet Socket_close w = Inr w'
    \<and> \<not> readable (heap w' ! r) \<and> \<not> writable (heap w' ! r)
    \<and> heap w' = map (\<lambda>s. s\<lparr>readable := False, writable := False\<rparr>) (heap w)
    \<and> emitted w' = emitted w @ On_close # map (\<lambda>k. On k Close) [0..<length (heap w)]
    \<and> count_list (emitted w') (On r Close) = count_list (emitted w) (On r Close) + 1
    \<and> streams w' = streams w \<and> streams w' i = Some r"
proof -
  have "count_list (map (\<lambda>k. On k Close) [0..<n]) (On r Close) = (if r < n then 1 else 0)" for n
    by (induction n) auto
  then have "count_list (emitted (socket_close quiet w)) (On r Close)
      = count_list (emitted w) (On r Close) + 1"
    using assms(2) by (simp add: socket_close_emitted)
  then show ?thesis
    using assms by (simp add: socket_close_heap socket_close_emitted socket_close_streams)
qed

theorem socket_close_cascade_witness:
  "step quiet Socket_close (conn1 ()) =
     Inr ((conn1 ())\<lparr>heap := [\<lparr>sid = 0, readable = False, writable = False, paused = False\<rparr>],
                     emitted := [On_close, On 0 Close]\<rparr>)"
  using socket_close_cascade [of "conn1 ()" 0 0]
  by (simp add: conn1_eq socket_close_def bs_defs)

text \<open>
  C10. Let the identifier \<open>i\<close> be registered for the stream \<open>r\<close>. Processing a StreamOpen
  message for \<open>i\<close> does not throw and emits exactly one notification, the client's
  \<open>'stream'\<close> with the new stream and the metadata: no error, and nothing on the stream
  \<open>r\<close>. A new stream object (readable, writable, not paused, identifier \<open>i\<close>) is
  constructed and takes the registry entry of \<open>i\<close>; the object \<open>r\<close> is unchanged and no
  longer registered under \<open>i\<close>. Nothing is sent.
\<close>

theorem stream_open_replaces:
  assumes "streams w i = Some r" and "r < length (heap w)"
  shows "\<exists>w'. step quiet (Socket_message (1, m, i)) w = Inr w'
    \<and> emitted w' = emitted w @ [On_stream (length (heap w)) m]
    \<and> heap w' = heap w @ [\<lparr>sid = i, readable = True, writable = True, paused = False\<rparr>]
    \<and> heap w' ! r = heap w ! r
    \<and> streams w' = (streams w)(i \<mapsto> length (heap w))
    \<and> streams w' i \<noteq> Some r
    \<and> sent w' = sent w"
  using assms by (simp add: bc_defs bs_defs nth_append)

theorem stream_open_replaces_witness:
  "step quiet (Socket_message (1, Text ''again'', 0)) (conn1 ()) =
     Inr ((conn1 ())\<lparr>heap := [\<lparr>sid = 0, readable = True, writable = True, paused = False\<rparr>,
                               \<lparr>sid = 0, readable = True, writable = True, paused = False\<rparr>],
                     emitted := [On_stream 1 (Text ''again'')],
                     streams := [0 \<mapsto> 1]\<rparr>)"
  using stream_open_replaces [of "conn1 ()" 0 0 "Text ''again''"]
  by (simp add: conn1_eq bc_defs bs_defs)

end
